theory Spec2Isabelle
  imports Complex_Main
begin

section \<open>JavaScript values\<close>

text \<open>
  The server (\<^verbatim>\<open>index.js\<close>) receives JSON messages \<^verbatim>\<open>{action, body}\<close>. The model starts
  where the handler has parsed a message and taken \<^verbatim>\<open>action\<close> and \<^verbatim>\<open>body\<close> from it: a
  message that \<^verbatim>\<open>JSON.parse\<close> rejects is dropped before. The action is a string. The fields
  of \<^verbatim>\<open>body\<close> are JavaScript values. A number is an IEEE double: a finite value (kept as
  the rational it denotes), \<^verbatim>\<open>NaN\<close>, or an infinity.
\<close>

datatype jsnum = Fin rat | NaN | PosInf | NegInf

text \<open>
  \<open>Obj\<close> stands for a JSON array or object (given by its text); such a value is only ever
  tested for truthiness or for its \<^verbatim>\<open>typeof\<close>, stored and relayed.
\<close>

datatype jsval = Undefined | Null | Bool bool | Num jsnum | Str string | Obj string

fun typeof :: "jsval \<Rightarrow> string" where
  "typeof Undefined = ''undefined''"
| "typeof Null = ''object''"
| "typeof (Bool _) = ''boolean''"
| "typeof (Num _) = ''number''"
| "typeof (Str _) = ''string''"
| "typeof (Obj _) = ''object''"

fun num_truthy :: "jsnum \<Rightarrow> bool" where
  "num_truthy (Fin q) = (q \<noteq> 0)"
| "num_truthy NaN = False"
| "num_truthy PosInf = True"
| "num_truthy NegInf = True"

fun truthy :: "jsval \<Rightarrow> bool" where
  "truthy Undefined = False"
| "truthy Null = False"
| "truthy (Bool b) = b"
| "truthy (Num x) = num_truthy x"
| "truthy (Str s) = (s \<noteq> [])"
| "truthy (Obj _) = True"

text \<open>\<^verbatim>\<open>v || null\<close>\<close>

definition or_null :: "jsval \<Rightarrow> jsval" where
  "or_null v = (if truthy v then v else Null)"

text \<open>
  The room code and the user identity are modelled for string values, as the protocol
  sends them: \<open>None\<close> is a field that is absent from the body. \<open>truthy_string\<close> is
  the test \<^verbatim>\<open>!x\<close> on such a field, read positively: it returns the string when it is truthy
  (non-empty).
\<close>

fun truthy_string :: "string option \<Rightarrow> string option" where
  "truthy_string None = None"
| "truthy_string (Some s) = (if s = [] then None else Some s)"

text \<open>The property key that \<^verbatim>\<open>rooms[roomCode]\<close> uses for a field that may be absent.\<close>

fun property_key :: "string option \<Rightarrow> string" where
  "property_key None = ''undefined''"
| "property_key (Some s) = s"

subsection \<open>Arithmetic on numbers\<close>

fun Math_floor :: "jsnum \<Rightarrow> jsnum" where
  "Math_floor (Fin q) = Fin (of_int \<lfloor>q\<rfloor>)"
| "Math_floor NaN = NaN"
| "Math_floor PosInf = PosInf"
| "Math_floor NegInf = NegInf"

fun Math_max :: "jsnum \<Rightarrow> jsnum \<Rightarrow> jsnum" where
  "Math_max NaN _ = NaN"
| "Math_max _ NaN = NaN"
| "Math_max PosInf _ = PosInf"
| "Math_max _ PosInf = PosInf"
| "Math_max NegInf y = y"
| "Math_max x NegInf = x"
| "Math_max (Fin a) (Fin b) = Fin (max a b)"

text \<open>
  \<^verbatim>\<open>x--\<close> on a timer value. A timer only ever holds what \<open>Math.max(1, Math.floor(t))\<close>
  returned, decremented some number of times: an integer-valued double, \<^verbatim>\<open>NaN\<close> or
  \<^verbatim>\<open>Infinity\<close>. Up to \<open>2^53\<close> the subtraction is exact; above, the doubles are the even
  integers (up to \<open>2^54\<close>) or sparser, and the result is rounded to the nearest double,
  ties to the even significand.
\<close>

fun js_dec :: "jsnum \<Rightarrow> jsnum" where
  "js_dec (Fin q) =
     Fin (if q \<le> 2 ^ 53 then q - 1
          else if q < 2 ^ 54 \<and> odd \<lfloor>q / 2\<rfloor> then q - 2
          else q)"
| "js_dec NaN = NaN"
| "js_dec PosInf = PosInf"
| "js_dec NegInf = NegInf"

text \<open>\<^verbatim>\<open>x <= 0\<close>\<close>

fun js_le0 :: "jsnum \<Rightarrow> bool" where
  "js_le0 (Fin q) = (q \<le> 0)"
| "js_le0 NaN = False"
| "js_le0 PosInf = False"
| "js_le0 NegInf = True"

text \<open>
  The duration of a session, lines 215-217:
  \<^verbatim>\<open>(typeof timerSeconds === "number") ? Math.max(1, Math.floor(timerSeconds)) : 60\<close>
\<close>

definition session_duration :: "jsval \<Rightarrow> jsnum" where
  "session_duration timerSeconds =
     (case timerSeconds of
        Num x \<Rightarrow> Math_max (Fin 1) (Math_floor x)
      | _ \<Rightarrow> Fin 60)"

subsection \<open>Decimal strings\<close>

definition digit :: "nat \<Rightarrow> char" where
  "digit d = ''0123456789'' ! d"

fun decimal :: "nat \<Rightarrow> string" where
  "decimal n = (if n < 10 then [digit n] else decimal (n div 10) @ [digit (n mod 10)])"

declare decimal.simps [simp del]

text \<open>\<^verbatim>\<open>Number.prototype.toString\<close> on an integer (of magnitude below \<open>10^21\<close>).\<close>

definition toString :: "int \<Rightarrow> string" where
  "toString n = (if n < 0 then CHR ''-'' # decimal (nat (- n)) else decimal (nat n))"

definition is_digit :: "char \<Rightarrow> bool" where
  "is_digit c = (c \<in> set ''0123456789'')"

section \<open>The server state\<close>

text \<open>
  A connection \<^verbatim>\<open>ws\<close> is identified by a number. It carries the two tags the server
  sets on it, \<^verbatim>\<open>ws.room\<close> and \<^verbatim>\<open>ws.userEmail\<close>, and \<^verbatim>\<open>ws.readyState === ws.OPEN\<close>.
\<close>

record conn =
  ws_room :: "string option"
  ws_userEmail :: "string option"
  ws_ready :: bool

record participant =
  ws :: nat
  email :: string

datatype room_state = waiting | started | ended

text \<open>\<^verbatim>\<open>room.timer = { timeRemaining, interval }\<close>; the interval is the handle \<^verbatim>\<open>setInterval\<close> returned.\<close>

record session_timer =
  timeRemaining :: jsnum
  interval :: nat

record room =
  owner :: participant
  clients :: "participant list"
  quiz :: jsval
  state :: room_state
  timer :: "session_timer option"
  finished :: "(string \<rightharpoonup> jsnum) option"

record body =
  roomCode :: "string option"
  userEmail :: "string option"
  username :: jsval
  quizData :: jsval
  timerSeconds :: jsval
  score :: jsval

text \<open>
  The messages the server sends, by their \<^verbatim>\<open>action\<close>, with the fields the source gives them.
  \<open>UserLeft\<close> carries \<^verbatim>\<open>room.clients\<close> as the source passes it.
\<close>

datatype out_msg =
    Error string
  | RoomClosed
  | Created string string jsval
  | Joined string jsval
  | UserJoined string jsval
  | SessionStarted bool jsval jsnum
  | TimerTick jsnum
  | SessionEnded
  | Reconnected jsval string room_state jsval
  | RoomDeleted string bool
  | UserLeft "participant list"
  | LeftRoom string
  | UserFinished string jsnum jsnum
  | Relay body

text \<open>
  \<open>rooms\<close> is the global table; \<open>intervals\<close> are the live \<^verbatim>\<open>setInterval\<close> handles, each with
  the room code its callback closes over; \<open>outbox\<close> is what \<^verbatim>\<open>safeSend\<close> has handed to
  \<^verbatim>\<open>ws.send\<close>, in order, each message as the object it is before \<^verbatim>\<open>JSON.stringify\<close> (which
  writes \<^verbatim>\<open>NaN\<close> as \<^verbatim>\<open>null\<close>); \<open>rand\<close> is the sequence of values \<^verbatim>\<open>Math.random()\<close> returns,
  \<open>randPos\<close> the number of them consumed.
\<close>

record server =
  rooms :: "string \<rightharpoonup> room"
  conns :: "nat \<Rightarrow> conn"
  outbox :: "(nat \<times> out_msg) list"
  intervals :: "nat \<rightharpoonup> string"
  nextInterval :: nat
  rand :: "nat \<Rightarrow> rat"
  randPos :: nat

text \<open>
  A handler that does not return: it throws a \<^verbatim>\<open>TypeError\<close> (a property read on
  \<^verbatim>\<open>undefined\<close>) that nothing catches, or its code-drawing loop never ends.
\<close>

datatype failure = TypeError | Hang

text \<open>
  \<^verbatim>\<open>const rooms = {}\<close> is a plain object: \<^verbatim>\<open>rooms[k]\<close> finds the room stored under \<open>k\<close>, and
  otherwise what \<^verbatim>\<open>Object.prototype\<close> has under that name (a function, or the prototype
  itself for \<^verbatim>\<open>__proto__\<close>): a truthy value that has none of a room's fields.
\<close>

datatype 'a lookup = Missing | Inherited | Own 'a

definition Object_prototype :: "string list" where
  "Object_prototype =
     [''constructor'', ''__defineGetter__'', ''__defineSetter__'', ''hasOwnProperty'',
      ''__lookupGetter__'', ''__lookupSetter__'', ''isPrototypeOf'', ''propertyIsEnumerable'',
      ''toString'', ''valueOf'', ''__proto__'', ''toLocaleString'']"

text \<open>The truthiness of what a lookup returns.\<close>

fun found :: "'a lookup \<Rightarrow> bool" where
  "found Missing = False"
| "found Inherited = True"
| "found (Own _) = True"

definition rooms_get :: "(string \<rightharpoonup> room) \<Rightarrow> string \<Rightarrow> room lookup" where
  "rooms_get rs k =
     (case rs k of
        Some r \<Rightarrow> Own r
      | None \<Rightarrow> if k \<in> set Object_prototype then Inherited else Missing)"

text \<open>
  The loop of lines 123-126:
  \<^verbatim>\<open>do { roomCode = Math.floor(1000 + Math.random() * 9000).toString(); } while (rooms[roomCode]);\<close>
  It returns the code and the number of random values consumed, or never returns.
\<close>

partial_function (option) genRoomCode ::
  "(nat \<Rightarrow> rat) \<Rightarrow> (string \<rightharpoonup> room) \<Rightarrow> nat \<Rightarrow> (string \<times> nat) option" where
  "genRoomCode rnd rs i =
     (let roomCode = toString \<lfloor>1000 + rnd i * 9000\<rfloor>
      in if found (rooms_get rs roomCode) then genRoomCode rnd rs (Suc i)
         else Some (roomCode, Suc i))"

declare genRoomCode.simps [code]

section \<open>Sending\<close>

text \<open>
  \<^verbatim>\<open>safeSend(ws, obj)\<close> transmits only on an open connection, and swallows what
  \<^verbatim>\<open>ws.send\<close> may throw.
\<close>

definition safeSend :: "server \<Rightarrow> nat \<Rightarrow> out_msg \<Rightarrow> server" where
  "safeSend s w m = (if ws_ready (conns s w) then s\<lparr>outbox := outbox s @ [(w, m)]\<rparr> else s)"

definition broadcast :: "server \<Rightarrow> participant list \<Rightarrow> out_msg \<Rightarrow> server" where
  "broadcast s cs m = foldl (\<lambda>s' client. safeSend s' (ws client) m) s cs"

definition set_room :: "server \<Rightarrow> nat \<Rightarrow> string option \<Rightarrow> server" where
  "set_room s w v = s\<lparr>conns := (conns s)(w := (conns s w)\<lparr>ws_room := v\<rparr>)\<rparr>"

definition set_userEmail :: "server \<Rightarrow> nat \<Rightarrow> string option \<Rightarrow> server" where
  "set_userEmail s w v = s\<lparr>conns := (conns s)(w := (conns s w)\<lparr>ws_userEmail := v\<rparr>)\<rparr>"

definition put_room :: "server \<Rightarrow> string \<Rightarrow> room \<Rightarrow> server" where
  "put_room s k r = s\<lparr>rooms := (rooms s)(k \<mapsto> r)\<rparr>"

definition delete_key :: "server \<Rightarrow> string \<Rightarrow> server" where
  "delete_key s k = s\<lparr>rooms := (rooms s)(k := None)\<rparr>"

definition clearInterval :: "server \<Rightarrow> nat \<Rightarrow> server" where
  "clearInterval s i = s\<lparr>intervals := (intervals s)(i := None)\<rparr>"

text \<open>\<^verbatim>\<open>if (room.timer && room.timer.interval) { clearInterval(room.timer.interval); room.timer = null; }\<close>\<close>

definition clear_timer :: "server \<Rightarrow> room \<Rightarrow> server" where
  "clear_timer s r = (case timer r of None \<Rightarrow> s | Some t \<Rightarrow> clearInterval s (interval t))"

section \<open>Leaving and deleting\<close>

definition deleteRoom :: "server \<Rightarrow> string \<Rightarrow> server" where
  "deleteRoom s k =
     (case rooms_get (rooms s) k of
        Missing \<Rightarrow> s
      | Inherited \<Rightarrow> s
      | Own r \<Rightarrow> delete_key (clear_timer s r) k)"

text \<open>
  The loop of lines 72-75 over the clients of a room whose owner leaves:
  \<^verbatim>\<open>safeSend(client.ws, { action: "roomClosed", ... }); client.ws.room = null;\<close>
\<close>

definition close_clients :: "server \<Rightarrow> participant list \<Rightarrow> server" where
  "close_clients s cs =
     foldl (\<lambda>s' client. set_room (safeSend s' (ws client) RoomClosed) (ws client) None) s cs"

text \<open>
  \<^verbatim>\<open>leaveRoom(ws)\<close>, lines 59-91. On a value inherited from \<^verbatim>\<open>Object.prototype\<close> the
  test \<^verbatim>\<open>room.owner && ...\<close> is false and \<^verbatim>\<open>room.clients.filter\<close> throws.
\<close>

definition leaveRoom :: "server \<Rightarrow> nat \<Rightarrow> failure + server" where
  "leaveRoom s w =
     (case truthy_string (ws_room (conns s w)) of
        None \<Rightarrow> Inr s
      | Some k \<Rightarrow>
          (case rooms_get (rooms s) k of
             Missing \<Rightarrow> Inr (set_room s w None)
           | Inherited \<Rightarrow> Inl TypeError
           | Own r \<Rightarrow>
               if ws (owner r) = w then
                 let s1 = close_clients s (clients r);
                     s2 = delete_key (clear_timer s1 r) k
                 in Inr (set_userEmail (set_room s2 w None) w None)
               else
                 let s1 = put_room s k (r\<lparr>clients := filter (\<lambda>c. ws c \<noteq> w) (clients r)\<rparr>)
                 in Inr (set_userEmail (set_room s1 w None) w None)))"

section \<open>The message handler\<close>

text \<open>
  \<^verbatim>\<open>existing.ws = ws\<close> on the first entry with the given email
  (\<^verbatim>\<open>clients.find\<close> in join, \<^verbatim>\<open>clients.findIndex\<close> in reconnect).
\<close>

fun rebind :: "string \<Rightarrow> nat \<Rightarrow> participant list \<Rightarrow> participant list" where
  "rebind e w [] = []"
| "rebind e w (c # cs) = (if email c = e then c\<lparr>ws := w\<rparr> # cs else c # rebind e w cs)"

definition bind_or_push :: "string \<Rightarrow> nat \<Rightarrow> participant list \<Rightarrow> participant list" where
  "bind_or_push e w cs =
     (case find (\<lambda>c. email c = e) cs of
        Some existing \<Rightarrow> rebind e w cs
      | None \<Rightarrow> cs @ [\<lparr>ws = w, email = e\<rparr>])"

definition on_create :: "server \<Rightarrow> nat \<Rightarrow> body \<Rightarrow> failure + server" where
  "on_create s0 w b =
     (case leaveRoom s0 w of
        Inl e \<Rightarrow> Inl e
      | Inr s \<Rightarrow>
          (case truthy_string (userEmail b) of
             None \<Rightarrow> Inr (safeSend s w (Error ''userEmail required to create room''))
           | Some e \<Rightarrow>
               let s1 = set_userEmail s w (Some e)
               in (case genRoomCode (rand s1) (rooms s1) (randPos s1) of
                     None \<Rightarrow> Inl Hang
                   | Some (code, pos) \<Rightarrow>
                       let s2 = set_room (s1\<lparr>randPos := pos\<rparr>) w (Some code);
                           s3 = put_room s2 code
                                  \<lparr>owner = \<lparr>ws = w, email = e\<rparr>, clients = [],
                                   quiz = or_null (quizData b), state = waiting,
                                   timer = None, finished = None\<rparr>
                       in Inr (safeSend s3 w
                                 (Created code (''Room '' @ code @ '' created'')
                                    (or_null (quizData b)))))))"

text \<open>
  The loop of lines 188-193: a message to every participant but the sender's connection.
\<close>

definition notify_others :: "server \<Rightarrow> nat \<Rightarrow> participant list \<Rightarrow> out_msg \<Rightarrow> server" where
  "notify_others s w cs m =
     foldl (\<lambda>s' client. if ws client \<noteq> w then safeSend s' (ws client) m else s') s cs"

text \<open>
  \<^verbatim>\<open>join\<close>, lines 151-196: a value inherited from \<^verbatim>\<open>Object.prototype\<close> passes both tests
  (\<^verbatim>\<open>!room\<close>, \<^verbatim>\<open>room.state === "started"\<close>) and \<^verbatim>\<open>room.clients.find\<close> throws.
\<close>

definition on_join :: "server \<Rightarrow> nat \<Rightarrow> body \<Rightarrow> failure + server" where
  "on_join s0 w b =
     (case leaveRoom s0 w of
        Inl e \<Rightarrow> Inl e
      | Inr s \<Rightarrow>
          (case (truthy_string (roomCode b), truthy_string (userEmail b)) of
             (Some code, Some e) \<Rightarrow>
               (case rooms_get (rooms s) code of
                  Missing \<Rightarrow> Inr (safeSend s w (Error ''Room does not exist''))
                | Inherited \<Rightarrow> Inl TypeError
                | Own r \<Rightarrow>
                    if state r = started then
                      Inr (safeSend s w (Error ''Session already started, cannot join''))
                    else
                      let s1 = set_room (set_userEmail s w (Some e)) w (Some code);
                          r1 = r\<lparr>clients := bind_or_push e w (clients r)\<rparr>;
                          s2 = put_room s1 code r1;
                          s3 = safeSend s2 w (Joined (''Joined room '' @ code) (quiz r1))
                      in Inr (notify_others s3 w (owner r1 # clients r1)
                                (UserJoined e (username b))))
           | _ \<Rightarrow> Inr (safeSend s w (Error ''roomCode and userEmail required to join''))))"

text \<open>
  \<^verbatim>\<open>startSession\<close>, lines 201-263. \<^verbatim>\<open>setInterval\<close> returns a fresh handle whose callback
  closes over \<^verbatim>\<open>roomCode\<close>. On an inherited value \<^verbatim>\<open>!room.owner\<close> holds.
\<close>

definition on_startSession :: "server \<Rightarrow> nat \<Rightarrow> body \<Rightarrow> failure + server" where
  "on_startSession s w b =
     (let code = property_key (roomCode b)
      in case rooms_get (rooms s) code of
           Missing \<Rightarrow> Inr (safeSend s w (Error ''Room does not exist''))
         | Inherited \<Rightarrow> Inr (safeSend s w (Error ''Only the owner can start the session''))
         | Own r \<Rightarrow>
             if ws (owner r) \<noteq> w then
               Inr (safeSend s w (Error ''Only the owner can start the session''))
             else
               let duration = session_duration (timerSeconds b);
                   r1 = r\<lparr>state := started\<rparr>;
                   s1 = put_room s code r1;
                   s2 = foldl (\<lambda>s' client.
                           safeSend s' (ws client)
                             (SessionStarted (email client = email (owner r1)) (quiz r1) duration))
                         s1 (owner r1 # clients r1);
                   s3 = clear_timer s2 r1;
                   i = nextInterval s3;
                   s4 = s3\<lparr>intervals := (intervals s3)(i \<mapsto> code), nextInterval := Suc i\<rparr>
               in Inr (put_room s4 code (r1\<lparr>timer := Some \<lparr>timeRemaining = duration, interval = i\<rparr>\<rparr>)))"

text \<open>The callback of the interval, lines 236-259, for the room code it closes over.\<close>

definition timerCallback :: "server \<Rightarrow> string \<Rightarrow> failure + server" where
  "timerCallback s code =
     (case rooms_get (rooms s) code of
        Missing \<Rightarrow> Inr s
      | Inherited \<Rightarrow> Inl TypeError
      | Own r \<Rightarrow>
          (case timer r of
             None \<Rightarrow> Inl TypeError
           | Some t \<Rightarrow>
               let t1 = t\<lparr>timeRemaining := js_dec (timeRemaining t)\<rparr>;
                   r1 = r\<lparr>timer := Some t1\<rparr>;
                   s1 = put_room s code r1;
                   everyone = owner r1 # clients r1;
                   s2 = broadcast s1 everyone (TimerTick (timeRemaining t1))
               in if js_le0 (timeRemaining t1) then
                    let s3 = clearInterval s2 (interval t1);
                        s4 = put_room s3 code (r1\<lparr>timer := None, state := ended\<rparr>)
                    in Inr (broadcast s4 everyone SessionEnded)
                  else Inr s2))"

text \<open>\<^verbatim>\<open>room.timer?.timeRemaining || null\<close>\<close>

definition timeRemaining_or_null :: "room \<Rightarrow> jsval" where
  "timeRemaining_or_null r =
     (case timer r of
        None \<Rightarrow> Null
      | Some t \<Rightarrow> or_null (Num (timeRemaining t)))"

text \<open>
  In \<^verbatim>\<open>reconnect\<close>, an inherited value passes \<^verbatim>\<open>!room\<close> and \<^verbatim>\<open>room.state === "ended"\<close>, and
  \<^verbatim>\<open>room.owner.email\<close> throws.
\<close>

definition on_reconnect :: "server \<Rightarrow> nat \<Rightarrow> body \<Rightarrow> failure + server" where
  "on_reconnect s w b =
     (case (truthy_string (roomCode b), truthy_string (userEmail b)) of
        (Some code, Some e) \<Rightarrow>
          (case rooms_get (rooms s) code of
             Missing \<Rightarrow> Inr (safeSend s w (Error ''Room does not exist''))
           | Inherited \<Rightarrow> Inl TypeError
           | Own r \<Rightarrow>
               if state r = ended then Inr (safeSend s w (Error ''Room already ended''))
               else
                 let s1 = set_room (set_userEmail s w (Some e)) w (Some code)
                 in if email (owner r) = e then
                      let r1 = r\<lparr>owner := (owner r)\<lparr>ws := w\<rparr>\<rparr>;
                          s2 = put_room s1 code r1
                      in Inr (safeSend s2 w
                                (Reconnected (quiz r1) ''owner'' (state r1)
                                   (timeRemaining_or_null r1)))
                    else
                      let r1 = r\<lparr>clients := bind_or_push e w (clients r)\<rparr>;
                          s2 = put_room s1 code r1
                      in Inr (safeSend s2 w
                                (Reconnected (quiz r1) ''client'' (state r1)
                                   (timeRemaining_or_null r1))))
      | _ \<Rightarrow> Inr (safeSend s w (Error ''roomCode and userEmail required to reconnect'')))"

definition on_deleteRoom :: "server \<Rightarrow> nat \<Rightarrow> body \<Rightarrow> failure + server" where
  "on_deleteRoom s w b =
     (case truthy_string (roomCode b) of
        None \<Rightarrow> Inr (safeSend s w (Error ''roomCode required to delete room''))
      | Some code \<Rightarrow>
          (case rooms_get (rooms s) code of
             Missing \<Rightarrow> Inr (safeSend s w (Error ''Room does not exist''))
           | Inherited \<Rightarrow> Inl TypeError
           | Own r \<Rightarrow>
               if ws (owner r) \<noteq> w then
                 Inr (safeSend s w (Error ''Only the owner can delete the room''))
               else
                 let s1 = foldl (\<lambda>s' client.
                             safeSend s' (ws client)
                               (RoomDeleted (''Room '' @ code @ '' was deleted by the owner'')
                                  (ws client = ws (owner r))))
                           s (owner r # clients r)
                 in Inr (deleteRoom s1 code)))"

definition on_leaveRoom :: "server \<Rightarrow> nat \<Rightarrow> failure + server" where
  "on_leaveRoom s w =
     (case truthy_string (ws_room (conns s w)) of
        None \<Rightarrow> Inr (safeSend s w (Error ''You are not in a room''))
      | Some code \<Rightarrow>
          (case rooms_get (rooms s) code of
             Missing \<Rightarrow> Inr (safeSend (set_room s w None) w (Error ''Room no longer exists''))
           | Inherited \<Rightarrow> Inl TypeError
           | Own r \<Rightarrow>
               if ws (owner r) = w then
                 Inr (safeSend s w (Error ''Owner cannot leave. Use deleteRoom instead.''))
               else
                 let r1 = r\<lparr>clients := filter (\<lambda>c. ws c \<noteq> w) (clients r)\<rparr>;
                     s1 = put_room s code r1;
                     s2 = broadcast s1 (owner r1 # clients r1) (UserLeft (clients r1));
                     s3 = safeSend s2 w (LeftRoom (''You left room '' @ code))
                 in Inr (set_userEmail (set_room s3 w None) w None)))"

text \<open>
  \<^verbatim>\<open>room.finished[userEmail] = score\<close> on the plain object \<^verbatim>\<open>room.finished = {}\<close>: under the
  name \<^verbatim>\<open>__proto__\<close> the assignment reaches the setter of \<^verbatim>\<open>Object.prototype\<close>, which
  ignores a number, and no property is created.
\<close>

definition finished_put :: "(string \<rightharpoonup> jsnum) \<Rightarrow> string \<Rightarrow> jsnum \<Rightarrow> (string \<rightharpoonup> jsnum)" where
  "finished_put m k v = (if k = ''__proto__'' then m else m(k \<mapsto> v))"

text \<open>
  \<^verbatim>\<open>finishQuiz\<close>, lines 399-432. On an inherited value the handler sets \<^verbatim>\<open>finished\<close> on it
  and \<^verbatim>\<open>room.owner.ws\<close> throws.
\<close>

definition on_finishQuiz :: "server \<Rightarrow> nat \<Rightarrow> body \<Rightarrow> failure + server" where
  "on_finishQuiz s w b =
     (case (truthy_string (roomCode b), truthy_string (userEmail b), score b) of
        (Some code, Some e, Num sc) \<Rightarrow>
          (case rooms_get (rooms s) code of
             Missing \<Rightarrow> Inr (safeSend s w (Error ''Room does not exist''))
           | Inherited \<Rightarrow> Inl TypeError
           | Own r \<Rightarrow>
               let store = (case finished r of None \<Rightarrow> Map.empty | Some m \<Rightarrow> m);
                   r1 = r\<lparr>finished := Some (finished_put store e sc)\<rparr>;
                   s1 = put_room s code r1;
                   remaining = (case timer r1 of
                                  None \<Rightarrow> Fin 0
                                | Some t \<Rightarrow> if num_truthy (timeRemaining t)
                                            then timeRemaining t else Fin 0)
               in Inr (safeSend s1 (ws (owner r1)) (UserFinished e sc remaining)))
      | _ \<Rightarrow> Inr (safeSend s w (Error ''roomCode, userEmail, and numeric score required'')))"

definition on_message :: "server \<Rightarrow> nat \<Rightarrow> body \<Rightarrow> failure + server" where
  "on_message s w b =
     (case truthy_string (ws_room (conns s w)) of
        None \<Rightarrow> Inr (safeSend s w (Error ''You are not in a room''))
      | Some code \<Rightarrow>
          (case rooms_get (rooms s) code of
             Missing \<Rightarrow> Inr (safeSend s w (Error ''You are not in a room''))
           | Inherited \<Rightarrow> Inl TypeError
           | Own r \<Rightarrow> Inr (broadcast s (owner r # clients r) (Relay b))))"

text \<open>The dispatch on \<^verbatim>\<open>action\<close>, in the order of the source.\<close>

definition handle_message :: "server \<Rightarrow> nat \<Rightarrow> string \<Rightarrow> body \<Rightarrow> failure + server" where
  "handle_message s w action b =
     (if action = ''create'' then on_create s w b
      else if action = ''join'' then on_join s w b
      else if action = ''startSession'' then on_startSession s w b
      else if action = ''reconnect'' then on_reconnect s w b
      else if action = ''deleteRoom'' then on_deleteRoom s w b
      else if action = ''leaveRoom'' then on_leaveRoom s w
      else if action = ''finishQuiz'' then on_finishQuiz s w b
      else if action = ''message'' then on_message s w b
      else Inr (safeSend s w (Error (''Unknown action: '' @ action))))"

section \<open>Events\<close>

text \<open>
  The server processes one event at a time: a parsed message on a connection, the close or
  the error of a connection (both call \<^verbatim>\<open>leaveRoom(ws)\<close>; a closed connection is no longer
  open), or the firing of a live interval. A cleared interval does not fire.
\<close>

datatype event =
    Message nat string body
  | Close nat
  | SocketError nat
  | Tick nat

definition step :: "server \<Rightarrow> event \<Rightarrow> failure + server" where
  "step s ev =
     (case ev of
        Message w action b \<Rightarrow> handle_message s w action b
      | Close w \<Rightarrow> leaveRoom (s\<lparr>conns := (conns s)(w := (conns s w)\<lparr>ws_ready := False\<rparr>)\<rparr>) w
      | SocketError w \<Rightarrow> leaveRoom s w
      | Tick i \<Rightarrow> (case intervals s i of None \<Rightarrow> Inr s | Some code \<Rightarrow> timerCallback s code))"

fun run :: "server \<Rightarrow> event list \<Rightarrow> failure + server" where
  "run s [] = Inr s"
| "run s (ev # evs) = (case step s ev of Inl e \<Rightarrow> Inl e | Inr s' \<Rightarrow> run s' evs)"

text \<open>
  The server at start: no room, no interval, every connection fresh
  (\<^verbatim>\<open>ws.room = null; ws.userEmail = null\<close>) and open.
\<close>

definition init :: "(nat \<Rightarrow> rat) \<Rightarrow> server" where
  "init rnd =
     \<lparr>rooms = Map.empty,
      conns = (\<lambda>_. \<lparr>ws_room = None, ws_userEmail = None, ws_ready = True\<rparr>),
      outbox = [], intervals = Map.empty, nextInterval = 0, rand = rnd, randPos = 0\<rparr>"

definition no_body :: body where
  "no_body = \<lparr>roomCode = None, userEmail = None, username = Undefined, quizData = Undefined,
              timerSeconds = Undefined, score = Undefined\<rparr>"

section \<open>Observations on runs\<close>

text \<open>A random source that always returns 0: every draw is the code \<open>1000\<close>.\<close>

definition zeros :: "nat \<Rightarrow> rat" where
  "zeros i = 0"

definition result_room :: "failure + server \<Rightarrow> string \<Rightarrow> room option" where
  "result_room res k = (case res of Inl _ \<Rightarrow> None | Inr s \<Rightarrow> rooms s k)"

text \<open>The participants of a room whose connection is open: those a broadcast reaches.\<close>

definition open_participants :: "server \<Rightarrow> room \<Rightarrow> participant list" where
  "open_participants s r = filter (\<lambda>c. ws_ready (conns s (ws c))) (owner r # clients r)"



definition result_failure :: "failure + server \<Rightarrow> failure option" where
  "result_failure res = (case res of Inl e \<Rightarrow> Some e | Inr _ \<Rightarrow> None)"

definition result_outbox :: "failure + server \<Rightarrow> (nat \<times> out_msg) list" where
  "result_outbox res = (case res of Inl _ \<Rightarrow> [] | Inr s \<Rightarrow> outbox s)"


text \<open>The score that \<^verbatim>\<open>room.finished\<close> holds under a name, if any.\<close>

definition recorded :: "room \<Rightarrow> string \<Rightarrow> jsnum option" where
  "recorded r e = (case finished r of None \<Rightarrow> None | Some m \<Rightarrow> m e)"

text \<open>The room code that the \<open>j\<close>-th value of \<^verbatim>\<open>Math.random()\<close> gives.\<close>

definition code_at :: "(nat \<Rightarrow> rat) \<Rightarrow> nat \<Rightarrow> string" where
  "code_at rnd j = toString \<lfloor>1000 + rnd j * 9000\<rfloor>"

section \<open>Failed validation\<close>




text \<open>The errors with which \<open>join\<close> answers.\<close>

definition join_errors :: "string list" where
  "join_errors =
     [''roomCode and userEmail required to join'', ''Room does not exist'',
      ''Session already started, cannot join'']"

section \<open>Generated codes\<close>

definition four_digits :: "string \<Rightarrow> bool" where
  "four_digits code = (length code = 4 \<and> list_all is_digit code)"

text \<open>Every room is stored under a code that some value of the random source gives.\<close>

definition generated_codes :: "server \<Rightarrow> bool" where
  "generated_codes s = (\<forall>code r. rooms s code = Some r \<longrightarrow> (\<exists>j. code = code_at (rand s) j))"

section \<open>Timers\<close>

text \<open>A room has a timer exactly while its state is \<open>started\<close>.\<close>

definition timer_of_started :: "room \<Rightarrow> bool" where
  "timer_of_started r = ((timer r \<noteq> None) = (state r = started))"

definition timers_of_started :: "server \<Rightarrow> bool" where
  "timers_of_started s = (\<forall>code r. rooms s code = Some r \<longrightarrow> timer_of_started r)"

section \<open>Rosters\<close>

text \<open>In every room, an email is the email of at most one member.\<close>

definition distinct_rosters :: "server \<Rightarrow> bool" where
  "distinct_rosters s = (\<forall>code r. rooms s code = Some r \<longrightarrow> distinct (map email (clients r)))"

section \<open>A scenario\<close>

text \<open>
  The states of one run, used to instantiate the theorems below. Connection 0 creates a room
  as \<open>olga\<close> (the random source gives the code 1000); connection 1 joins it as \<open>ann\<close>; the
  owner starts a session of one second; the interval fires once and the session ends; the
  owner starts a session again.
\<close>

definition olga_creates :: body where
  "olga_creates = no_body\<lparr>userEmail := Some ''olga''\<rparr>"

definition join_as_ann :: body where
  "join_as_ann = no_body\<lparr>roomCode := Some ''1000'', userEmail := Some ''ann''\<rparr>"

definition start_1s :: body where
  "start_1s = no_body\<lparr>roomCode := Some ''1000'', timerSeconds := Num (Fin 1)\<rparr>"

definition start_0s :: body where
  "start_0s = no_body\<lparr>roomCode := Some ''1000'', timerSeconds := Num (Fin 0)\<rparr>"

definition restart :: body where
  "restart = no_body\<lparr>roomCode := Some ''1000''\<rparr>"

definition olga_room :: room where
  "olga_room = \<lparr>owner = \<lparr>ws = 0, email = ''olga''\<rparr>, clients = [], quiz = Null,
                 state = waiting, timer = None, finished = None\<rparr>"

definition olga_server :: server where
  "olga_server =
     \<lparr>rooms = [''1000'' \<mapsto> olga_room],
      conns = (conns (init zeros))
        (0 := \<lparr>ws_room = Some ''1000'', ws_userEmail = Some ''olga'', ws_ready = True\<rparr>),
      outbox = [(0, Created ''1000'' ''Room 1000 created'' Null)],
      intervals = Map.empty, nextInterval = 0, rand = zeros, randPos = 1\<rparr>"

definition demo_timer :: session_timer where
  "demo_timer = \<lparr>timeRemaining = Fin 1, interval = 0\<rparr>"

definition demo_room :: room where
  "demo_room =
     \<lparr>owner = \<lparr>ws = 0, email = ''olga''\<rparr>, clients = [\<lparr>ws = 1, email = ''ann''\<rparr>],
      quiz = Null, state = started, timer = Some demo_timer, finished = None\<rparr>"

definition demo_server :: server where
  "demo_server =
     \<lparr>rooms = [''1000'' \<mapsto> demo_room],
      conns = (conns olga_server)
        (1 := \<lparr>ws_room = Some ''1000'', ws_userEmail = Some ''ann'', ws_ready = True\<rparr>),
      outbox = outbox olga_server @
        [(1, Joined ''Joined room 1000'' Null), (0, UserJoined ''ann'' Undefined),
         (0, SessionStarted True Null (Fin 1)), (1, SessionStarted False Null (Fin 1))],
      intervals = [0 \<mapsto> ''1000''], nextInterval = 1, rand = zeros, randPos = 1\<rparr>"






text \<open>Further requests: each is sent in the scenario by the theorem that names it.\<close>

definition join_as_bob :: body where
  "join_as_bob = no_body\<lparr>roomCode := Some ''1000'', userEmail := Some ''bob''\<rparr>"

definition join_as_olga :: body where
  "join_as_olga = no_body\<lparr>roomCode := Some ''1000'', userEmail := Some ''olga''\<rparr>"


definition reconnect_constructor :: body where
  "reconnect_constructor =
     no_body\<lparr>roomCode := Some ''constructor'', userEmail := Some ''ann''\<rparr>"

definition finish_proto :: body where
  "finish_proto =
     no_body\<lparr>roomCode := Some ''1000'', userEmail := Some ''__proto__'', score := Num (Fin 5)\<rparr>"

definition finish_ann :: body where
  "finish_ann =
     no_body\<lparr>roomCode := Some ''1000'', userEmail := Some ''ann'', score := Num (Fin 5)\<rparr>"

section \<open>Basic facts\<close>

lemma safeSend_simps [simp]:
  "rooms (safeSend s w m) = rooms s"
  "conns (safeSend s w m) = conns s"
  "intervals (safeSend s w m) = intervals s"
  "nextInterval (safeSend s w m) = nextInterval s"
  "rand (safeSend s w m) = rand s"
  "randPos (safeSend s w m) = randPos s"
  "outbox (safeSend s w m) = outbox s @ (if ws_ready (conns s w) then [(w, m)] else [])"
  by (simp_all add: safeSend_def)

text \<open>A loop of sends transmits, in order, to the open connections among its recipients.\<close>

lemma foldl_safeSend:
  "foldl (\<lambda>s' c. safeSend s' (ws c) (f c)) s cs =
     s\<lparr>outbox := outbox s @ map (\<lambda>c. (ws c, f c)) (filter (\<lambda>c. ws_ready (conns s (ws c))) cs)\<rparr>"
proof (induction cs arbitrary: s)
  case Nil
  show ?case by simp
next
  case (Cons c cs)
  show ?case
    by (simp add: Cons.IH)
qed

lemma foldl_safeSend_simps [simp]:
  "rooms (foldl (\<lambda>s' c. safeSend s' (ws c) (f c)) s cs) = rooms s"
  "conns (foldl (\<lambda>s' c. safeSend s' (ws c) (f c)) s cs) = conns s"
  "intervals (foldl (\<lambda>s' c. safeSend s' (ws c) (f c)) s cs) = intervals s"
  "nextInterval (foldl (\<lambda>s' c. safeSend s' (ws c) (f c)) s cs) = nextInterval s"
  "rand (foldl (\<lambda>s' c. safeSend s' (ws c) (f c)) s cs) = rand s"
  "randPos (foldl (\<lambda>s' c. safeSend s' (ws c) (f c)) s cs) = randPos s"
  by (simp_all add: foldl_safeSend)

lemma broadcast_eq:
  "broadcast s cs m =
     s\<lparr>outbox := outbox s @ map (\<lambda>c. (ws c, m)) (filter (\<lambda>c. ws_ready (conns s (ws c))) cs)\<rparr>"
  unfolding broadcast_def by (rule foldl_safeSend)

lemma broadcast_simps [simp]:
  "rooms (broadcast s cs m) = rooms s"
  "conns (broadcast s cs m) = conns s"
  "intervals (broadcast s cs m) = intervals s"
  "nextInterval (broadcast s cs m) = nextInterval s"
  "rand (broadcast s cs m) = rand s"
  "randPos (broadcast s cs m) = randPos s"
  by (simp_all add: broadcast_eq)

lemma notify_others_simps [simp]:
  "rooms (notify_others s w cs m) = rooms s"
  "conns (notify_others s w cs m) = conns s"
  "intervals (notify_others s w cs m) = intervals s"
  "nextInterval (notify_others s w cs m) = nextInterval s"
  "rand (notify_others s w cs m) = rand s"
  "randPos (notify_others s w cs m) = randPos s"
  unfolding notify_others_def
  by (induction cs arbitrary: s; simp)+

lemma put_room_simps [simp]:
  "rooms (put_room s k r) = (rooms s)(k \<mapsto> r)"
  "conns (put_room s k r) = conns s"
  "intervals (put_room s k r) = intervals s"
  "nextInterval (put_room s k r) = nextInterval s"
  "rand (put_room s k r) = rand s"
  "randPos (put_room s k r) = randPos s"
  "outbox (put_room s k r) = outbox s"
  by (simp_all add: put_room_def)

lemma clearInterval_simps [simp]:
  "rooms (clearInterval s i) = rooms s"
  "conns (clearInterval s i) = conns s"
  "intervals (clearInterval s i) = (intervals s)(i := None)"
  "nextInterval (clearInterval s i) = nextInterval s"
  "rand (clearInterval s i) = rand s"
  "randPos (clearInterval s i) = randPos s"
  "outbox (clearInterval s i) = outbox s"
  by (simp_all add: clearInterval_def)

lemma set_room_simps [simp]:
  "rooms (set_room s w v) = rooms s"
  "intervals (set_room s w v) = intervals s"
  "nextInterval (set_room s w v) = nextInterval s"
  "rand (set_room s w v) = rand s"
  "randPos (set_room s w v) = randPos s"
  "outbox (set_room s w v) = outbox s"
  "ws_ready (conns (set_room s w v) w') = ws_ready (conns s w')"
  "ws_userEmail (conns (set_room s w v) w') = ws_userEmail (conns s w')"
  "ws_room (conns (set_room s w v) w') = (if w' = w then v else ws_room (conns s w'))"
  by (simp_all add: set_room_def)

lemma set_userEmail_simps [simp]:
  "rooms (set_userEmail s w v) = rooms s"
  "intervals (set_userEmail s w v) = intervals s"
  "nextInterval (set_userEmail s w v) = nextInterval s"
  "rand (set_userEmail s w v) = rand s"
  "randPos (set_userEmail s w v) = randPos s"
  "outbox (set_userEmail s w v) = outbox s"
  "ws_ready (conns (set_userEmail s w v) w') = ws_ready (conns s w')"
  "ws_room (conns (set_userEmail s w v) w') = ws_room (conns s w')"
  "ws_userEmail (conns (set_userEmail s w v) w') = (if w' = w then v else ws_userEmail (conns s w'))"
  by (simp_all add: set_userEmail_def)

lemma delete_key_simps [simp]:
  "rooms (delete_key s k) = (rooms s)(k := None)"
  "conns (delete_key s k) = conns s"
  "intervals (delete_key s k) = intervals s"
  "nextInterval (delete_key s k) = nextInterval s"
  "rand (delete_key s k) = rand s"
  "randPos (delete_key s k) = randPos s"
  "outbox (delete_key s k) = outbox s"
  by (simp_all add: delete_key_def)

lemma clear_timer_simps [simp]:
  "rooms (clear_timer s r) = rooms s"
  "conns (clear_timer s r) = conns s"
  "nextInterval (clear_timer s r) = nextInterval s"
  "rand (clear_timer s r) = rand s"
  "randPos (clear_timer s r) = randPos s"
  "outbox (clear_timer s r) = outbox s"
  by (simp_all add: clear_timer_def split: option.split)

lemma close_clients_simps [simp]:
  "rooms (close_clients s cs) = rooms s"
  "intervals (close_clients s cs) = intervals s"
  "nextInterval (close_clients s cs) = nextInterval s"
  "rand (close_clients s cs) = rand s"
  "randPos (close_clients s cs) = randPos s"
  "ws_ready (conns (close_clients s cs) w') = ws_ready (conns s w')"
  "ws_userEmail (conns (close_clients s cs) w') = ws_userEmail (conns s w')"
  unfolding close_clients_def
  by (induction cs arbitrary: s; simp)+

lemma rooms_get_Own: "rs k = Some r \<Longrightarrow> rooms_get rs k = Own r"
  by (simp add: rooms_get_def)


lemma truthy_string_Some [simp]:
  "(truthy_string x = Some k) = (x = Some k \<and> k \<noteq> [])"
  by (cases x) auto

lemma truthy_string_None:
  "(truthy_string x = None) = (x = None \<or> x = Some [])"
  by (cases x) auto

section \<open>Leaving a room\<close>

lemma leaveRoom_rand:
  "leaveRoom s w = Inr s1 \<Longrightarrow> rand s1 = rand s \<and> randPos s1 = randPos s
     \<and> ws_ready (conns s1 w') = ws_ready (conns s w')"
  by (auto simp: leaveRoom_def Let_def split: option.splits lookup.splits if_splits)

lemma leaveRoom_no_tag:
  "truthy_string (ws_room (conns s w)) = None \<Longrightarrow> leaveRoom s w = Inr s"
  by (simp add: leaveRoom_def)

text \<open>
  What \<open>leaveRoom\<close> does to the room under a code: it deletes it (the connection is its
  owner's), leaves it as it is, or removes the connection from its roster.
\<close>

lemma leaveRoom_rooms:
  assumes "leaveRoom s w = Inr s1" and "rooms s code = Some r"
  shows "(rooms s1 code = None \<and> ws (owner r) = w \<and> ws_room (conns s w) = Some code)
       \<or> rooms s1 code = Some r
       \<or> rooms s1 code = Some (r\<lparr>clients := filter (\<lambda>c. ws c \<noteq> w) (clients r)\<rparr>)"
  using assms
  by (auto simp: leaveRoom_def Let_def rooms_get_def
      split: option.splits lookup.splits if_splits)


lemma leaveRoom_dom:
  "leaveRoom s w = Inr s' \<Longrightarrow> rooms s' code = Some r' \<Longrightarrow> \<exists>r. rooms s code = Some r"
  by (auto simp: leaveRoom_def Let_def rooms_get_def
      split: option.splits lookup.splits if_splits)

section \<open>The scenario is a run of the server\<close>

lemma decimal_small: "n < 10 \<Longrightarrow> decimal n = [digit n]"
  by (subst decimal.simps) simp

lemma decimal_step: "10 \<le> n \<Longrightarrow> decimal n = decimal (n div 10) @ [digit (n mod 10)]"
  by (subst decimal.simps) simp

lemma code_at_zeros: "code_at zeros j = ''1000''"
  by (simp add: code_at_def zeros_def toString_def decimal_step decimal_small digit_def)

lemma olga_created: "handle_message (init zeros) 0 ''create'' olga_creates = Inr olga_server"
proof -
  have g: "genRoomCode zeros Map.empty 0 = Some (''1000'', Suc 0)"
    using code_at_zeros [of 0]
    by (subst genRoomCode.simps) (simp add: code_at_def rooms_get_def Object_prototype_def)
  show ?thesis
    using g
    by (simp add: handle_message_def on_create_def leaveRoom_def init_def olga_creates_def
        no_body_def Let_def set_userEmail_def set_room_def put_room_def safeSend_def or_null_def
        olga_server_def olga_room_def)
qed

lemma demo_reached:
  "run (init zeros)
     [Message 0 ''create'' olga_creates, Message 1 ''join'' join_as_ann,
      Message 0 ''startSession'' start_1s] = Inr demo_server"
proof -
  have j: "handle_message olga_server 1 ''join'' join_as_ann = Inr
     (olga_server\<lparr>rooms := [''1000'' \<mapsto> olga_room\<lparr>clients := [\<lparr>ws = 1, email = ''ann''\<rparr>]\<rparr>],
        conns := (conns olga_server)
          (1 := \<lparr>ws_room = Some ''1000'', ws_userEmail = Some ''ann'', ws_ready = True\<rparr>),
        outbox := outbox olga_server @
          [(1, Joined ''Joined room 1000'' Null), (0, UserJoined ''ann'' Undefined)]\<rparr>)"
    by (simp add: handle_message_def on_join_def leaveRoom_def join_as_ann_def no_body_def
        olga_server_def olga_room_def init_def rooms_get_def Let_def bind_or_push_def
        notify_others_def safeSend_def set_room_def set_userEmail_def put_room_def)
  have s: "handle_message
     (olga_server\<lparr>rooms := [''1000'' \<mapsto> olga_room\<lparr>clients := [\<lparr>ws = 1, email = ''ann''\<rparr>]\<rparr>],
        conns := (conns olga_server)
          (1 := \<lparr>ws_room = Some ''1000'', ws_userEmail = Some ''ann'', ws_ready = True\<rparr>),
        outbox := outbox olga_server @
          [(1, Joined ''Joined room 1000'' Null), (0, UserJoined ''ann'' Undefined)]\<rparr>)
     0 ''startSession'' start_1s = Inr demo_server"
    by (simp add: handle_message_def on_startSession_def start_1s_def no_body_def
        olga_server_def olga_room_def init_def rooms_get_def Let_def session_duration_def
        safeSend_def clear_timer_def put_room_def demo_server_def demo_room_def demo_timer_def)
  show ?thesis
    using olga_created j s by (simp add: step_def)
qed

lemma demo_facts:
  "rooms demo_server ''1000'' = Some demo_room"
  "intervals demo_server 0 = Some ''1000''"
  "open_participants demo_server demo_room = [\<lparr>ws = 0, email = ''olga''\<rparr>, \<lparr>ws = 1, email = ''ann''\<rparr>]"
  "ws (owner demo_room) = 0" "email (owner demo_room) = ''olga''" "quiz demo_room = Null"
  "state demo_room = started" "timer demo_room = Some demo_timer"
  by (simp_all add: demo_server_def demo_room_def open_participants_def olga_server_def init_def)




section \<open>Room codes\<close>

lemma digit_is_digit: "d < 10 \<Longrightarrow> is_digit (digit d)"
proof -
  have "\<forall>d\<in>set [0..<10]. is_digit (digit d)"
    by code_simp
  then show "d < 10 \<Longrightarrow> is_digit (digit d)"
    by simp
qed

lemma decimal_four_digits:
  assumes "1000 \<le> n" and "n < 10000"
  shows "length (decimal n) = 4 \<and> list_all is_digit (decimal n)"
proof -
  define a where "a = n div 10"
  define b where "b = a div 10"
  define c where "c = b div 10"
  have bounds: "10 \<le> n" "10 \<le> a" "10 \<le> b" "c < 10"
    using assms by (simp_all add: a_def b_def c_def)
  have "decimal n = [digit c, digit (b mod 10), digit (a mod 10), digit (n mod 10)]"
    using bounds
    by (simp add: decimal_step [of n] decimal_step [of a] decimal_step [of b] decimal_small [of c]
        a_def [symmetric] b_def [symmetric] c_def [symmetric])
  then show ?thesis
    using bounds by (simp add: digit_is_digit)
qed

lemma code_four_digits:
  assumes "0 \<le> rnd j" and "rnd j < 1"
  shows "length (code_at rnd j) = 4 \<and> list_all is_digit (code_at rnd j)"
proof -
  define q where "q = rnd j"
  define n where "n = \<lfloor>1000 + q * 9000\<rfloor>"
  note assms = assms [folded q_def]
  have lo: "1000 \<le> n"
    using assms by (simp add: n_def le_floor_iff)
  have "1000 + q * 9000 < 10000"
    using assms by simp
  then have hi: "n < 10000"
    by (simp add: n_def floor_less_iff)
  have "1000 \<le> nat n" "nat n < 10000"
    using lo hi by linarith+
  from decimal_four_digits [OF this] lo have "length (toString n) = 4 \<and> list_all is_digit (toString n)"
    by (simp add: toString_def)
  then show ?thesis
    by (simp add: code_at_def n_def q_def)
qed

text \<open>What the loop returns is the first code, from its position in the random source on,
  that \<^verbatim>\<open>rooms\<close> does not hold.\<close>

lemma genRoomCode_result:
  assumes "genRoomCode rnd rs i = Some y"
  shows "\<exists>j\<ge>i. y = (code_at rnd j, Suc j) \<and> rooms_get rs (code_at rnd j) = Missing"
proof (rule genRoomCode.raw_induct
    [where P = "\<lambda>rnd rs i y. \<exists>j\<ge>i. y = (code_at rnd j, Suc j)
                  \<and> rooms_get rs (code_at rnd j) = Missing", OF _ assms])
  fix f :: "(nat \<Rightarrow> rat) \<Rightarrow> (string \<rightharpoonup> room) \<Rightarrow> nat \<Rightarrow> (string \<times> nat) option"
    and rnd rs i y
  assume IH: "\<And>rnd rs i y. f rnd rs i = Some y \<Longrightarrow>
      \<exists>j\<ge>i. y = (code_at rnd j, Suc j) \<and> rooms_get rs (code_at rnd j) = Missing"
    and eq: "(let roomCode = toString \<lfloor>1000 + rnd i * 9000\<rfloor>
              in if found (rooms_get rs roomCode) then f rnd rs (Suc i)
                 else Some (roomCode, Suc i)) = Some y"
  show "\<exists>j\<ge>i. y = (code_at rnd j, Suc j) \<and> rooms_get rs (code_at rnd j) = Missing"
  proof (cases "found (rooms_get rs (code_at rnd i))")
    case True
    with eq have "f rnd rs (Suc i) = Some y"
      by (simp add: Let_def code_at_def)
    from IH [OF this] obtain j where j: "Suc i \<le> j" "y = (code_at rnd j, Suc j)"
      "rooms_get rs (code_at rnd j) = Missing"
      by blast
    from j(1) have "i \<le> j" by simp
    with j(2,3) show ?thesis by blast
  next
    case False
    with eq have y: "y = (code_at rnd i, Suc i)"
      by (auto simp add: Let_def code_at_def)
    from False have "rooms_get rs (code_at rnd i) = Missing"
      by (cases "rooms_get rs (code_at rnd i)") simp_all
    with y show ?thesis by auto
  qed
qed

text \<open>The loop returns as soon as a draw gives a code that is free.\<close>

lemma genRoomCode_returns:
  assumes "rooms_get rs (code_at rnd (i + k)) = Missing"
  shows "\<exists>y. genRoomCode rnd rs i = Some y"
  using assms
proof (induction k arbitrary: i)
  case 0
  then show ?case
    by (subst genRoomCode.simps) (simp add: Let_def code_at_def)
next
  case (Suc k)
  then have "\<exists>y. genRoomCode rnd rs (Suc i) = Some y"
    by simp
  then show ?case
    by (subst genRoomCode.simps) (simp add: Let_def)
qed



lemma handle_message_dom:
  assumes "handle_message s w action b = Inr s'" and "rooms s' code = Some r'"
  shows "rand s' = rand s \<and> ((\<exists>r. rooms s code = Some r) \<or> (\<exists>j. code = code_at (rand s) j))"
proof -
  consider "action = ''create''" | "action = ''join''" | "action = ''startSession''"
    | "action = ''reconnect''" | "action = ''deleteRoom''" | "action = ''leaveRoom''"
    | "action = ''finishQuiz''" | "action = ''message''"
    | "action \<notin> {''create'', ''join'', ''startSession'', ''reconnect'', ''deleteRoom'',
         ''leaveRoom'', ''finishQuiz'', ''message''}"
    by auto
  then show ?thesis
  proof cases
    case 1
    with assms have c: "on_create s w b = Inr s'" by (simp add: handle_message_def)
    then obtain s1 where s1: "leaveRoom s w = Inr s1"
      by (cases "leaveRoom s w") (simp_all add: on_create_def)
    have "rand s' = rand s \<and> ((\<exists>r. rooms s1 code = Some r) \<or> (\<exists>j. code = code_at (rand s) j))"
      using leaveRoom_rand [OF s1] c s1 assms(2)
      by (auto simp: on_create_def Let_def dest!: genRoomCode_result
          split: option.splits if_splits prod.splits)
    with leaveRoom_dom [OF s1] show ?thesis
      by blast
  next
    case 2
    with assms have c: "on_join s w b = Inr s'" by (simp add: handle_message_def)
    then obtain s1 where s1: "leaveRoom s w = Inr s1"
      by (cases "leaveRoom s w") (simp_all add: on_join_def)
    have "rand s' = rand s \<and> (\<exists>r. rooms s1 code = Some r)"
      using leaveRoom_rand [OF s1] c s1 assms(2)
      by (auto simp: on_join_def Let_def rooms_get_def
          split: option.splits lookup.splits if_splits prod.splits)
    with leaveRoom_dom [OF s1] show ?thesis
      by blast
  next
    case 3
    with assms show ?thesis
      by (auto simp: handle_message_def on_startSession_def Let_def rooms_get_def
          split: option.splits lookup.splits if_splits prod.splits)
  next
    case 4
    with assms show ?thesis
      by (auto simp: handle_message_def on_reconnect_def Let_def rooms_get_def
          split: option.splits lookup.splits if_splits prod.splits)
  next
    case 5
    with assms show ?thesis
      by (auto simp: handle_message_def on_deleteRoom_def deleteRoom_def Let_def rooms_get_def
          split: option.splits lookup.splits if_splits prod.splits)
  next
    case 6
    with assms show ?thesis
      by (auto simp: handle_message_def on_leaveRoom_def Let_def rooms_get_def
          split: option.splits lookup.splits if_splits prod.splits)
  next
    case 7
    with assms show ?thesis
      by (auto simp: handle_message_def on_finishQuiz_def Let_def rooms_get_def
          split: option.splits lookup.splits if_splits prod.splits jsval.splits)
  next
    case 8
    with assms show ?thesis
      by (auto simp: handle_message_def on_message_def Let_def rooms_get_def
          split: option.splits lookup.splits if_splits prod.splits)
  next
    case 9
    with assms show ?thesis
      by (auto simp: handle_message_def)
  qed
qed

lemma step_rand: "step s ev = Inr s' \<Longrightarrow> rand s' = rand s"
proof (cases ev)
  case (Message w action b)
  assume "step s ev = Inr s'"
  with Message have h: "handle_message s w action b = Inr s'"
    by (simp add: step_def)
  consider "action = ''create''" | "action = ''join''" | "action \<noteq> ''create'' \<and> action \<noteq> ''join''"
    by auto
  then show ?thesis
  proof cases
    case 1
    with h have c: "on_create s w b = Inr s'" by (simp add: handle_message_def)
    then obtain s1 where s1: "leaveRoom s w = Inr s1"
      by (cases "leaveRoom s w") (simp_all add: on_create_def)
    with c leaveRoom_rand [OF s1] show ?thesis
      by (auto simp: on_create_def Let_def split: option.splits if_splits prod.splits)
  next
    case 2
    with h have c: "on_join s w b = Inr s'" by (simp add: handle_message_def)
    then obtain s1 where s1: "leaveRoom s w = Inr s1"
      by (cases "leaveRoom s w") (simp_all add: on_join_def)
    with c leaveRoom_rand [OF s1] show ?thesis
      by (auto simp: on_join_def Let_def split: option.splits lookup.splits if_splits prod.splits)
  next
    case 3
    with h show ?thesis
      by (auto simp: handle_message_def on_startSession_def on_reconnect_def on_deleteRoom_def
          deleteRoom_def on_leaveRoom_def on_finishQuiz_def on_message_def Let_def
          split: option.splits lookup.splits if_splits prod.splits jsval.splits)
  qed
next
  case (Close w)
  assume "step s ev = Inr s'"
  with Close have l: "leaveRoom (s\<lparr>conns := (conns s)(w := (conns s w)\<lparr>ws_ready := False\<rparr>)\<rparr>) w = Inr s'"
    by (simp add: step_def)
  from leaveRoom_rand [OF l] show ?thesis by simp
next
  case (SocketError w)
  assume "step s ev = Inr s'"
  with SocketError have l: "leaveRoom s w = Inr s'"
    by (simp add: step_def)
  from leaveRoom_rand [OF l] show ?thesis by simp
next
  case (Tick i)
  assume "step s ev = Inr s'"
  with Tick show ?thesis
    by (auto simp: step_def timerCallback_def Let_def
        split: option.splits lookup.splits if_splits)
qed

lemma step_dom:
  assumes "step s ev = Inr s'" and "rooms s' code = Some r'"
  shows "(\<exists>r. rooms s code = Some r) \<or> (\<exists>j. code = code_at (rand s) j)"
proof (cases ev)
  case (Message w action b)
  with assms(1) have "handle_message s w action b = Inr s'"
    by (simp add: step_def)
  from handle_message_dom [OF this assms(2)] show ?thesis
    by simp
next
  case (Close w)
  with assms(1) have l: "leaveRoom (s\<lparr>conns := (conns s)(w := (conns s w)\<lparr>ws_ready := False\<rparr>)\<rparr>) w = Inr s'"
    by (simp add: step_def)
  from leaveRoom_dom [OF l assms(2)] show ?thesis
    by simp
next
  case (SocketError w)
  with assms(1) have l: "leaveRoom s w = Inr s'"
    by (simp add: step_def)
  from leaveRoom_dom [OF l assms(2)] show ?thesis
    by simp
next
  case (Tick i)
  with assms show ?thesis
    by (auto simp: step_def timerCallback_def Let_def rooms_get_def
        split: option.splits lookup.splits if_splits)
qed

lemma step_generated_codes:
  assumes "step s ev = Inr s'" and "generated_codes s"
  shows "generated_codes s'"
  unfolding generated_codes_def
proof (intro allI impI)
  fix code r'
  assume "rooms s' code = Some r'"
  from step_dom [OF assms(1) this] assms(2) have "\<exists>j. code = code_at (rand s) j"
    by (auto simp: generated_codes_def)
  then show "\<exists>j. code = code_at (rand s') j"
    by (simp add: step_rand [OF assms(1)])
qed

lemma run_generated_codes:
  "run s evs = Inr s' \<Longrightarrow> generated_codes s \<Longrightarrow> generated_codes s' \<and> rand s' = rand s"
proof (induction evs arbitrary: s)
  case Nil
  then show ?case by simp
next
  case (Cons ev evs)
  from Cons.prems(1) obtain s1 where s1: "step s ev = Inr s1" "run s1 evs = Inr s'"
    by (cases "step s ev") simp_all
  from step_generated_codes [OF s1(1) Cons.prems(2)] step_rand [OF s1(1)] Cons.IH [OF s1(2)]
  show ?case
    by simp
qed

text \<open>
  Every room of a server that started empty is stored under a generated code: four decimal
  digits, and so never a name of \<^verbatim>\<open>Object.prototype\<close>.
\<close>

lemma reachable_room_codes:
  assumes "\<forall>i. 0 \<le> rnd i \<and> rnd i < 1" and "run (init rnd) evs = Inr s"
    and "rooms s code = Some r"
  shows "four_digits code \<and> code \<notin> set Object_prototype"
proof -
  have "generated_codes (init rnd)"
    by (simp add: generated_codes_def init_def)
  from run_generated_codes [OF assms(2) this] assms(3) obtain j where "code = code_at rnd j"
    by (auto simp: generated_codes_def init_def)
  with code_four_digits [of rnd j] assms(1) have "four_digits code"
    by (simp add: four_digits_def)
  moreover from this have "code \<notin> set Object_prototype"
    by (auto simp: four_digits_def Object_prototype_def)
  ultimately show ?thesis by simp
qed

section \<open>The state of a room\<close>













section \<open>A timer exists while the session runs\<close>

text \<open>
  In every server reached from the start a room has a timer exactly while it is \<open>started\<close>;
  so the callback of an interval takes a room from \<open>started\<close> to \<open>ended\<close> and from no other
  state.
\<close>

lemma timer_of_started_simps [simp]:
  "timer_of_started (r\<lparr>clients := cs\<rparr>) = timer_of_started r"
  "timer_of_started (r\<lparr>owner := ow\<rparr>) = timer_of_started r"
  "timer_of_started (r\<lparr>finished := f\<rparr>) = timer_of_started r"
  "timer_of_started (r\<lparr>state := started, timer := Some t\<rparr>)"
  "timer_of_started (r\<lparr>timer := None, state := ended\<rparr>)"
  "timer_of_started \<lparr>owner = ow, clients = cs, quiz = q, state = waiting, timer = None, finished = f\<rparr>"
  by (simp_all add: timer_of_started_def)

lemma leaveRoom_timers:
  assumes "leaveRoom s w = Inr s'" and "timers_of_started s"
  shows "timers_of_started s'"
  unfolding timers_of_started_def
proof (intro allI impI)
  fix code r'
  assume r': "rooms s' code = Some r'"
  from leaveRoom_dom [OF assms(1) r'] obtain r where r: "rooms s code = Some r"
    by blast
  with assms(2) have "timer_of_started r"
    by (simp add: timers_of_started_def)
  with leaveRoom_rooms [OF assms(1) r] r' show "timer_of_started r'"
    by auto
qed

lemma handle_message_timers:
  assumes "handle_message s w action b = Inr s'" and "timers_of_started s"
  shows "timers_of_started s'"
proof -
  consider "action = ''create''" | "action = ''join''" | "action = ''startSession''"
    | "action = ''reconnect''" | "action = ''deleteRoom''" | "action = ''leaveRoom''"
    | "action = ''finishQuiz''" | "action = ''message''"
    | "action \<notin> {''create'', ''join'', ''startSession'', ''reconnect'', ''deleteRoom'',
         ''leaveRoom'', ''finishQuiz'', ''message''}"
    by auto
  then show ?thesis
  proof cases
    case 1
    with assms have c: "on_create s w b = Inr s'" by (simp add: handle_message_def)
    then obtain s1 where s1: "leaveRoom s w = Inr s1"
      by (cases "leaveRoom s w") (simp_all add: on_create_def)
    from leaveRoom_timers [OF s1 assms(2)] c s1 show ?thesis
      by (auto simp: on_create_def Let_def timers_of_started_def
          split: option.splits if_splits prod.splits)
  next
    case 2
    with assms have c: "on_join s w b = Inr s'" by (simp add: handle_message_def)
    then obtain s1 where s1: "leaveRoom s w = Inr s1"
      by (cases "leaveRoom s w") (simp_all add: on_join_def)
    from leaveRoom_timers [OF s1 assms(2)] c s1 show ?thesis
      by (auto simp: on_join_def Let_def timers_of_started_def rooms_get_def
          split: option.splits lookup.splits if_splits prod.splits)
  next
    case 3
    with assms show ?thesis
      by (auto simp: handle_message_def on_startSession_def Let_def timers_of_started_def
          rooms_get_def split: option.splits lookup.splits if_splits prod.splits)
  next
    case 4
    with assms show ?thesis
      by (auto simp: handle_message_def on_reconnect_def Let_def timers_of_started_def
          rooms_get_def split: option.splits lookup.splits if_splits prod.splits)
  next
    case 5
    with assms show ?thesis
      by (auto simp: handle_message_def on_deleteRoom_def deleteRoom_def Let_def
          timers_of_started_def rooms_get_def
          split: option.splits lookup.splits if_splits prod.splits)
  next
    case 6
    with assms show ?thesis
      by (auto simp: handle_message_def on_leaveRoom_def Let_def timers_of_started_def
          rooms_get_def split: option.splits lookup.splits if_splits prod.splits)
  next
    case 7
    with assms show ?thesis
      by (auto simp: handle_message_def on_finishQuiz_def Let_def timers_of_started_def
          rooms_get_def split: option.splits lookup.splits if_splits prod.splits jsval.splits)
  next
    case 8
    with assms show ?thesis
      by (auto simp: handle_message_def on_message_def Let_def timers_of_started_def
          rooms_get_def split: option.splits lookup.splits if_splits prod.splits)
  next
    case 9
    with assms show ?thesis
      by (auto simp: handle_message_def timers_of_started_def)
  qed
qed

lemma timerCallback_timers:
  assumes "timerCallback s k = Inr s'" and "timers_of_started s"
  shows "timers_of_started s'"
proof (cases "rooms s k")
  case None
  with assms show ?thesis
    by (auto simp: timerCallback_def rooms_get_def split: if_splits)
next
  case (Some r)
  with assms(1) obtain t where t: "timer r = Some t"
    by (cases "timer r") (simp_all add: timerCallback_def rooms_get_def)
  with assms(2) Some have st: "state r = started"
    by (auto simp: timers_of_started_def timer_of_started_def)
  have other: "\<And>code r'. code \<noteq> k \<Longrightarrow> rooms s' code = rooms s code"
    using assms(1) Some t
    by (auto simp: timerCallback_def rooms_get_def Let_def split: if_splits)
  have this_room: "\<And>r'. rooms s' k = Some r' \<Longrightarrow> timer_of_started r'"
    using assms(1) Some t st
    by (auto simp: timerCallback_def rooms_get_def Let_def timer_of_started_def split: if_splits)
  show ?thesis
    unfolding timers_of_started_def
  proof (intro allI impI)
    fix code r'
    assume r': "rooms s' code = Some r'"
    show "timer_of_started r'"
    proof (cases "code = k")
      case True
      with r' this_room show ?thesis by simp
    next
      case False
      with other r' have "rooms s code = Some r'" by simp
      with assms(2) show ?thesis by (simp add: timers_of_started_def)
    qed
  qed
qed

lemma step_timers:
  assumes "step s ev = Inr s'" and "timers_of_started s"
  shows "timers_of_started s'"
proof (cases ev)
  case (Message w action b)
  with assms(1) have "handle_message s w action b = Inr s'"
    by (simp add: step_def)
  from handle_message_timers [OF this assms(2)] show ?thesis .
next
  case (Close w)
  with assms(1) have l: "leaveRoom (s\<lparr>conns := (conns s)(w := (conns s w)\<lparr>ws_ready := False\<rparr>)\<rparr>) w = Inr s'"
    by (simp add: step_def)
  from leaveRoom_timers [OF l] assms(2) show ?thesis
    by (simp add: timers_of_started_def)
next
  case (SocketError w)
  with assms(1) have l: "leaveRoom s w = Inr s'"
    by (simp add: step_def)
  from leaveRoom_timers [OF l assms(2)] show ?thesis .
next
  case (Tick i)
  show ?thesis
  proof (cases "intervals s i")
    case None
    with assms Tick show ?thesis by (simp add: step_def)
  next
    case (Some k)
    with assms(1) Tick have "timerCallback s k = Inr s'"
      by (simp add: step_def)
    from timerCallback_timers [OF this assms(2)] show ?thesis .
  qed
qed

lemma run_timers:
  "run s evs = Inr s' \<Longrightarrow> timers_of_started s \<Longrightarrow> timers_of_started s'"
proof (induction evs arbitrary: s)
  case Nil
  then show ?case by simp
next
  case (Cons ev evs)
  from Cons.prems(1) obtain s1 where s1: "step s ev = Inr s1" "run s1 evs = Inr s'"
    by (cases "step s ev") simp_all
  from Cons.IH [OF s1(2) step_timers [OF s1(1) Cons.prems(2)]] show ?case .
qed

lemma init_timers: "run (init rnd) evs = Inr s \<Longrightarrow> timers_of_started s"
  using run_timers [of "init rnd" evs s] by (simp add: timers_of_started_def init_def)

lemma timerCallback_from_started:
  assumes "timers_of_started s" and "timerCallback s k = Inr s'"
    and "rooms s code = Some r" and "rooms s' code = Some r'" and "state r' \<noteq> state r"
  shows "state r = started \<and> state r' = ended"
proof -
  from assms(1,3) have "timer_of_started r"
    by (simp add: timers_of_started_def)
  with assms(2-5) show ?thesis
    by (auto simp: timerCallback_def Let_def timer_of_started_def rooms_get_def
        split: option.splits lookup.splits if_splits)
qed

section \<open>The duration of a session\<close>

lemma on_startSession_cong:
  "roomCode b = roomCode b' \<Longrightarrow>
   session_duration (timerSeconds b) = session_duration (timerSeconds b') \<Longrightarrow>
   on_startSession s w b = on_startSession s w b'"
  by (simp add: on_startSession_def Let_def split: lookup.split)

text \<open>
  C2, as stated: a session started with \<open>timerSeconds = 0\<close> or \<open>-5\<close> has the duration of one
  started without \<open>timerSeconds\<close>. It does not: the durations differ, and in the scenario
  the timer of a session started with 0 holds 1 second, that of a session started without
  \<open>timerSeconds\<close> 60.
\<close>

theorem C2_counterexample:
  "session_duration (Num (Fin 0)) \<noteq> session_duration Undefined
   \<and> session_duration (Num (Fin (- 5))) \<noteq> session_duration Undefined
   \<and> map_option (map_option timeRemaining \<circ> timer) (result_room (run (init zeros)
        [Message 0 ''create'' olga_creates, Message 0 ''startSession'' start_0s]) ''1000'')
     = Some (Some (Fin 1))
   \<and> map_option (map_option timeRemaining \<circ> timer) (result_room (run (init zeros)
        [Message 0 ''create'' olga_creates, Message 0 ''startSession'' restart]) ''1000'')
     = Some (Some (Fin 60))"
  by code_simp

text \<open>
  C2, amended: the handler depends on \<open>timerSeconds\<close> through the duration alone.
  \<open>startSession\<close> with \<open>timerSeconds = 0\<close> or \<open>-5\<close> starts a session of 1 second and behaves
  in every respect (state, broadcasts, timer) as with \<open>timerSeconds = 1\<close>; without
  \<open>timerSeconds\<close> the duration is the default of 60 seconds, and the handler behaves as with
  \<open>timerSeconds = 60\<close>.
\<close>

theorem C2_zero_or_negative_is_one_second:
  "session_duration (Num (Fin 0)) = Fin 1
   \<and> session_duration (Num (Fin (- 5))) = Fin 1
   \<and> session_duration Undefined = Fin 60
   \<and> on_startSession s w (b\<lparr>timerSeconds := Num (Fin 0)\<rparr>)
       = on_startSession s w (b\<lparr>timerSeconds := Num (Fin 1)\<rparr>)
   \<and> on_startSession s w (b\<lparr>timerSeconds := Num (Fin (- 5))\<rparr>)
       = on_startSession s w (b\<lparr>timerSeconds := Num (Fin 1)\<rparr>)
   \<and> on_startSession s w (b\<lparr>timerSeconds := Undefined\<rparr>)
       = on_startSession s w (b\<lparr>timerSeconds := Num (Fin 60)\<rparr>)"
proof -
  have d: "session_duration (Num (Fin 0)) = Fin 1" "session_duration (Num (Fin (- 5))) = Fin 1"
    "session_duration (Num (Fin 1)) = Fin 1" "session_duration Undefined = Fin 60"
    "session_duration (Num (Fin 60)) = Fin 60"
    by (simp_all add: session_duration_def)
  show ?thesis
    using d
      on_startSession_cong [of "b\<lparr>timerSeconds := Num (Fin 0)\<rparr>"
        "b\<lparr>timerSeconds := Num (Fin 1)\<rparr>" s w]
      on_startSession_cong [of "b\<lparr>timerSeconds := Num (Fin (- 5))\<rparr>"
        "b\<lparr>timerSeconds := Num (Fin 1)\<rparr>" s w]
      on_startSession_cong [of "b\<lparr>timerSeconds := Undefined\<rparr>"
        "b\<lparr>timerSeconds := Num (Fin 60)\<rparr>" s w]
    by simp
qed

section \<open>Requests that fail their validation\<close>




text \<open>
  C4, as stated: a \<open>join\<close> that names a started room leaves every roster and every tag as it
  was. In the scenario \<open>ann\<close>, a member of the started room, sends \<open>join\<close> for it again:
  the roster is empty afterwards.
\<close>

theorem C4_counterexample:
  "map_option (map email \<circ> clients) (result_room (run (init zeros)
      [Message 0 ''create'' olga_creates, Message 1 ''join'' join_as_ann,
       Message 0 ''startSession'' start_1s]) ''1000'')
    = Some [''ann'']
   \<and> map_option (map email \<circ> clients) (result_room (run (init zeros)
      [Message 0 ''create'' olga_creates, Message 1 ''join'' join_as_ann,
       Message 0 ''startSession'' start_1s, Message 1 ''join'' join_as_ann]) ''1000'')
    = Some []
   \<and> map_option state (result_room (run (init zeros)
      [Message 0 ''create'' olga_creates, Message 1 ''join'' join_as_ann,
       Message 0 ''startSession'' start_1s]) ''1000'')
    = Some started"
  by code_simp

text \<open>
  C4, amended: a \<open>join\<close> that names a started room (stored under a code that is no name of
  \<^verbatim>\<open>Object.prototype\<close>, as every generated code is) always fails with an error sent to the
  sender, and adds or rebinds no member: beyond the error, the server is as the
  \<open>leaveRoom(ws)\<close> that every \<open>join\<close> starts with leaves it. The named room is then deleted
  (the sender was its owner's connection), unchanged, or without the sender in its roster.
  When the sender is tagged with no room, the detach changes nothing: every room, roster and
  tag is as before.
\<close>

theorem C4_join_started:
  assumes "rooms s code = Some r" and "state r = started" and "code \<notin> set Object_prototype"
    and "roomCode b = Some code" and "leaveRoom s w = Inr s1"
  shows "(\<exists>msg. msg \<in> set join_errors
              \<and> handle_message s w ''join'' b = Inr (safeSend s1 w (Error msg)))
       \<and> (rooms s1 code = None \<or> rooms s1 code = Some r
            \<or> rooms s1 code = Some (r\<lparr>clients := filter (\<lambda>c. ws c \<noteq> w) (clients r)\<rparr>))
       \<and> (truthy_string (ws_room (conns s w)) = None \<longrightarrow> s1 = s)"
proof -
  have j: "handle_message s w ''join'' b = on_join s w b"
    by (simp add: handle_message_def)
  from leaveRoom_rooms [OF assms(5,1)] consider
    (gone) "rooms s1 code = None" | (same) "rooms s1 code = Some r"
    | (left) "rooms s1 code = Some (r\<lparr>clients := filter (\<lambda>c. ws c \<noteq> w) (clients r)\<rparr>)"
    by auto
  then have "\<exists>msg. msg \<in> set join_errors \<and> on_join s w b = Inr (safeSend s1 w (Error msg))"
  proof cases
    case gone
    then have "rooms_get (rooms s1) code = Missing"
      using assms(3) by (simp add: rooms_get_def)
    then show ?thesis
      using assms(4,5)
      by (cases "code = []"; cases "truthy_string (userEmail b)") (auto simp: on_join_def join_errors_def)
  next
    case same
    then have "rooms_get (rooms s1) code = Own r"
      by (rule rooms_get_Own)
    then show ?thesis
      using assms(2,4,5)
      by (cases "code = []"; cases "truthy_string (userEmail b)") (auto simp: on_join_def join_errors_def)
  next
    case left
    then have "rooms_get (rooms s1) code = Own (r\<lparr>clients := filter (\<lambda>c. ws c \<noteq> w) (clients r)\<rparr>)"
      by (rule rooms_get_Own)
    then show ?thesis
      using assms(2,4,5)
      by (cases "code = []"; cases "truthy_string (userEmail b)") (auto simp: on_join_def join_errors_def)
  qed
  moreover have "truthy_string (ws_room (conns s w)) = None \<Longrightarrow> s1 = s"
    using assms(5) by (simp add: leaveRoom_no_tag)
  ultimately show ?thesis
    using leaveRoom_rooms [OF assms(5,1)] by (auto simp: j)
qed

text \<open>A new connection, tagged with no room, asks to join the started room of the scenario.\<close>

theorem C4_join_started_witness:
  "rooms demo_server ''1000'' = Some demo_room \<and> state demo_room = started
   \<and> ''1000'' \<notin> set Object_prototype
   \<and> roomCode join_as_bob = Some ''1000''
   \<and> leaveRoom demo_server 2 = Inr demo_server
   \<and> truthy_string (ws_room (conns demo_server 2)) = None
   \<and> (\<exists>msg. msg \<in> set join_errors
          \<and> handle_message demo_server 2 ''join'' join_as_bob
               = Inr (safeSend demo_server 2 (Error msg)))"
proof -
  have t: "truthy_string (ws_room (conns demo_server 2)) = None"
    by (simp add: demo_server_def olga_server_def init_def)
  have h: "rooms demo_server ''1000'' = Some demo_room" "state demo_room = started"
    "''1000'' \<notin> set Object_prototype" "roomCode join_as_bob = Some ''1000''"
    "leaveRoom demo_server 2 = Inr demo_server"
    using t by (simp_all add: demo_facts Object_prototype_def join_as_bob_def no_body_def
        leaveRoom_no_tag)
  from C4_join_started [OF h] h t show ?thesis
    by simp
qed

section \<open>The roster\<close>

lemma rebind_emails: "map email (rebind e w cs) = map email cs"
  by (induction cs) simp_all

lemma bind_or_push_known:
  "e \<in> email ` set cs \<Longrightarrow> bind_or_push e w cs = rebind e w cs"
  by (auto simp: bind_or_push_def find_None_iff split: option.splits)

lemma bind_or_push_new:
  "e \<notin> email ` set cs \<Longrightarrow> bind_or_push e w cs = cs @ [\<lparr>ws = w, email = e\<rparr>]"
  by (auto simp: bind_or_push_def find_None_iff split: option.splits dest: find_Some_iff [THEN iffD1])

text \<open>Both \<open>join\<close> and \<open>reconnect\<close> keep the emails of a roster distinct.\<close>

lemma bind_or_push_distinct:
  "distinct (map email cs) \<Longrightarrow> distinct (map email (bind_or_push e w cs))"
  by (cases "e \<in> email ` set cs") (simp_all add: bind_or_push_known bind_or_push_new rebind_emails)

lemma filter_emails_distinct:
  "distinct (map email cs) \<Longrightarrow> distinct (map email (filter P cs))"
  by (induction cs) auto

text \<open>
  The first part of C5 is an invariant of the server: no step gives a roster an email twice.
\<close>

lemma leaveRoom_distinct:
  assumes "leaveRoom s w = Inr s'" and "distinct_rosters s"
  shows "distinct_rosters s'"
  unfolding distinct_rosters_def
proof (intro allI impI)
  fix code r'
  assume r': "rooms s' code = Some r'"
  from leaveRoom_dom [OF assms(1) r'] obtain r where r: "rooms s code = Some r"
    by blast
  with assms(2) have "distinct (map email (clients r))"
    by (simp add: distinct_rosters_def)
  with leaveRoom_rooms [OF assms(1) r] r' show "distinct (map email (clients r'))"
    by (auto simp: filter_emails_distinct)
qed

lemma handle_message_distinct:
  assumes "handle_message s w action b = Inr s'" and "distinct_rosters s"
  shows "distinct_rosters s'"
proof -
  consider "action = ''create''" | "action = ''join''" | "action = ''startSession''"
    | "action = ''reconnect''" | "action = ''deleteRoom''" | "action = ''leaveRoom''"
    | "action = ''finishQuiz''" | "action = ''message''"
    | "action \<notin> {''create'', ''join'', ''startSession'', ''reconnect'', ''deleteRoom'',
         ''leaveRoom'', ''finishQuiz'', ''message''}"
    by auto
  then show ?thesis
  proof cases
    case 1
    with assms have c: "on_create s w b = Inr s'" by (simp add: handle_message_def)
    then obtain s1 where s1: "leaveRoom s w = Inr s1"
      by (cases "leaveRoom s w") (simp_all add: on_create_def)
    from leaveRoom_distinct [OF s1 assms(2)] c s1 show ?thesis
      by (auto simp: on_create_def Let_def distinct_rosters_def
          split: option.splits if_splits prod.splits)
  next
    case 2
    with assms have c: "on_join s w b = Inr s'" by (simp add: handle_message_def)
    then obtain s1 where s1: "leaveRoom s w = Inr s1"
      by (cases "leaveRoom s w") (simp_all add: on_join_def)
    from leaveRoom_distinct [OF s1 assms(2)] c s1 show ?thesis
      by (auto simp: on_join_def Let_def distinct_rosters_def rooms_get_def bind_or_push_distinct
          split: option.splits lookup.splits if_splits prod.splits)
  next
    case 3
    with assms show ?thesis
      by (auto simp: handle_message_def on_startSession_def Let_def distinct_rosters_def
          rooms_get_def split: option.splits lookup.splits if_splits prod.splits)
  next
    case 4
    with assms show ?thesis
      by (auto simp: handle_message_def on_reconnect_def Let_def distinct_rosters_def
          rooms_get_def bind_or_push_distinct
          split: option.splits lookup.splits if_splits prod.splits)
  next
    case 5
    with assms show ?thesis
      by (auto simp: handle_message_def on_deleteRoom_def deleteRoom_def Let_def
          distinct_rosters_def rooms_get_def
          split: option.splits lookup.splits if_splits prod.splits)
  next
    case 6
    with assms show ?thesis
      by (auto simp: handle_message_def on_leaveRoom_def Let_def distinct_rosters_def
          rooms_get_def filter_emails_distinct
          split: option.splits lookup.splits if_splits prod.splits)
  next
    case 7
    with assms show ?thesis
      by (auto simp: handle_message_def on_finishQuiz_def Let_def distinct_rosters_def
          rooms_get_def split: option.splits lookup.splits if_splits prod.splits jsval.splits)
  next
    case 8
    with assms show ?thesis
      by (auto simp: handle_message_def on_message_def Let_def distinct_rosters_def
          rooms_get_def split: option.splits lookup.splits if_splits prod.splits)
  next
    case 9
    with assms show ?thesis
      by (auto simp: handle_message_def distinct_rosters_def)
  qed
qed

lemma step_distinct:
  assumes "step s ev = Inr s'" and "distinct_rosters s"
  shows "distinct_rosters s'"
proof (cases ev)
  case (Message w action b)
  with assms(1) have "handle_message s w action b = Inr s'"
    by (simp add: step_def)
  from handle_message_distinct [OF this assms(2)] show ?thesis .
next
  case (Close w)
  with assms(1) have l: "leaveRoom (s\<lparr>conns := (conns s)(w := (conns s w)\<lparr>ws_ready := False\<rparr>)\<rparr>) w = Inr s'"
    by (simp add: step_def)
  from leaveRoom_distinct [OF l] assms(2) show ?thesis
    by (simp add: distinct_rosters_def)
next
  case (SocketError w)
  with assms(1) have l: "leaveRoom s w = Inr s'"
    by (simp add: step_def)
  from leaveRoom_distinct [OF l assms(2)] show ?thesis .
next
  case (Tick i)
  with assms show ?thesis
    by (auto simp: step_def timerCallback_def Let_def distinct_rosters_def rooms_get_def
        split: option.splits lookup.splits if_splits)
qed

lemma reachable_distinct:
  "run s evs = Inr s' \<Longrightarrow> distinct_rosters s \<Longrightarrow> distinct_rosters s'"
proof (induction evs arbitrary: s)
  case Nil
  then show ?case by simp
next
  case (Cons ev evs)
  from Cons.prems(1) obtain s1 where s1: "step s ev = Inr s1" "run s1 evs = Inr s'"
    by (cases "step s ev") simp_all
  from Cons.IH [OF s1(2) step_distinct [OF s1(1) Cons.prems(2)]] show ?case .
qed

lemma init_distinct: "run (init rnd) evs = Inr s \<Longrightarrow> distinct_rosters s"
  using reachable_distinct [of "init rnd" evs s] by (simp add: distinct_rosters_def init_def)

text \<open>
  C5 at its failing input: the room of \<open>olga\<close> exists and a second connection joins it with
  the email \<open>olga\<close>. \<open>join\<close> looks for the email among the members only, so the owner's email
  is then also a member's. (\<open>reconnect\<close> compares the email with the owner's first.)
\<close>

theorem C5_join_with_owner_email:
  "map_option (email \<circ> owner)
     (result_room (run (init zeros)
        [Message 0 ''create'' olga_creates, Message 1 ''join'' join_as_olga]) ''1000'')
     = Some ''olga''
   \<and> map_option (map email \<circ> clients)
     (result_room (run (init zeros)
        [Message 0 ''create'' olga_creates, Message 1 ''join'' join_as_olga]) ''1000'')
     = Some [''olga'']"
  by code_simp

section \<open>The session timer\<close>




section \<open>A session started with NaN\<close>





section \<open>Reconnecting\<close>

text \<open>
  What \<open>reconnect\<close> does on a room that has not ended: with the owner's email it rebinds the
  owner's connection and answers with the role \<open>owner\<close>; with another email it rebinds the
  member of that email, or adds a new member, and answers with the role \<open>client\<close>.
\<close>

lemma reconnect_live_room:
  assumes "rooms s code = Some r" and "state r \<noteq> ended"
    and "roomCode b = Some code" and "code \<noteq> []" and "userEmail b = Some e" and "e \<noteq> []"
  shows "on_reconnect s w b = Inr
     (safeSend
        (put_room (set_room (set_userEmail s w (Some e)) w (Some code)) code
           (if email (owner r) = e then r\<lparr>owner := (owner r)\<lparr>ws := w\<rparr>\<rparr>
            else r\<lparr>clients := bind_or_push e w (clients r)\<rparr>))
        w
        (Reconnected (quiz r) (if email (owner r) = e then ''owner'' else ''client'') (state r)
           (timeRemaining_or_null r)))"
  using assms
  by (simp add: on_reconnect_def rooms_get_Own Let_def timeRemaining_or_null_def)

text \<open>
  C7 at its failing input: no room has the code \<open>constructor\<close>, and a \<open>reconnect\<close> that names
  it is not answered with an error. \<^verbatim>\<open>rooms["constructor"]\<close> is the function that the
  plain object \<^verbatim>\<open>rooms\<close> inherits, so neither \<^verbatim>\<open>!room\<close> nor
  \<^verbatim>\<open>room.state === "ended"\<close> holds, and \<^verbatim>\<open>room.owner.email\<close> throws a \<^verbatim>\<open>TypeError\<close> out of
  the handler.
\<close>

theorem C7_reconnect_constructor:
  "result_failure (run (init zeros) [Message 0 ''reconnect'' reconnect_constructor])
     = Some TypeError"
  by code_simp

section \<open>Finishing a quiz\<close>

text \<open>
  What \<open>finishQuiz\<close> does on a room, whatever its state and whoever sends it: it stores the
  score and sends \<open>userFinished\<close> to the owner's connection alone, with the time remaining, or
  0 when there is no timer or its value is falsy.
\<close>

lemma finishQuiz_on_room:
  assumes "rooms s code = Some r"
    and "roomCode b = Some code" and "code \<noteq> []" and "userEmail b = Some e" and "e \<noteq> []"
    and "score b = Num sc"
  shows "on_finishQuiz s w b = Inr
     (safeSend
        (put_room s code
           (r\<lparr>finished := Some (finished_put (case finished r of None \<Rightarrow> Map.empty | Some m \<Rightarrow> m) e sc)\<rparr>))
        (ws (owner r))
        (UserFinished e sc
           (case timer r of
              None \<Rightarrow> Fin 0
            | Some t \<Rightarrow> if num_truthy (timeRemaining t) then timeRemaining t else Fin 0)))"
  using assms
  by (simp add: on_finishQuiz_def rooms_get_Own Let_def)

lemma finished_put_records:
  "e \<noteq> ''__proto__'' \<Longrightarrow> finished_put m e sc e = Some sc"
  by (simp add: finished_put_def)

text \<open>
  C10 at its failing input: \<open>finishQuiz\<close> with the identity \<open>__proto__\<close>. The owner is told
  that \<open>__proto__\<close> finished with score 5, and \<^verbatim>\<open>room.finished\<close> holds no score under that
  name: the assignment \<^verbatim>\<open>room.finished["__proto__"] = 5\<close> creates no property. Under the
  identity \<open>ann\<close> the score is recorded.
\<close>

theorem C10_finishQuiz_proto:
  "map_option (\<lambda>r. recorded r ''__proto__'')
     (result_room (run (init zeros)
        [Message 0 ''create'' olga_creates, Message 1 ''finishQuiz'' finish_proto]) ''1000'')
     = Some None
   \<and> result_outbox (run (init zeros)
        [Message 0 ''create'' olga_creates, Message 1 ''finishQuiz'' finish_proto])
     = [(0, Created ''1000'' ''Room 1000 created'' Null),
        (0, UserFinished ''__proto__'' (Fin 5) (Fin 0))]
   \<and> map_option (\<lambda>r. recorded r ''ann'')
     (result_room (run (init zeros)
        [Message 0 ''create'' olga_creates, Message 1 ''finishQuiz'' finish_ann]) ''1000'')
     = Some (Some (Fin 5))"
  by code_simp

end
